theory Spec2Isabelle
  imports Main "HOL-Library.Char_ord" "HOL-Library.List_Lexorder"
begin

section \<open>The migration runner \<open>arnold\<close>: model of \<open>Terminator\<close>\<close>

text \<open>
  The theory embeds the class \<open>Terminator\<close> of \<open>arnold/__init__.py\<close>: the listing of the
  migration files (\<open>_retreive_filenames\<close>), the ledger table \<open>migration\<close> with the four SQL
  statements the class sends, the application of one unit (\<open>_perform_single_migration\<close>) and
  the run (\<open>_perform_migrations\<close>).

  Names are \<open>string\<close>s, compared position by position by character code. The database, the
  directory and the migration modules are outside the class; they appear as follows.
  \<^item> The directory is the list \<open>os.listdir\<close> returns, in whatever order it returns it.
  \<^item> The table is the list of its rows in insertion order; each SQL statement is a function
    on it, given with the statement it stands for.
  \<^item> A module is known by which of \<open>up\<close> and \<open>down\<close> it has (\<open>hasattr\<close>). Calling the
    operation is recorded in the trace; what it does to the user's schema is not modelled,
    and it is taken to return and to leave the table \<open>migration\<close> alone.
  \<^item> Every \<open>print\<close> and every effect is appended to a trace, so that what a run did can be
    read off afterwards.
\<close>

subsection \<open>Python primitives\<close>

text \<open>\<open>f.rsplit(".", 1)\<close>: \<open>None\<close> stands for the one-element result (no dot in \<open>f\<close>),
  \<open>Some (a, b)\<close> for \<open>[a, b]\<close>, split at the last dot.\<close>

definition rsplit_dot :: "string \<Rightarrow> (string \<times> string) option" where
  "rsplit_dot f =
     (if CHR ''.'' \<in> set f
      then Some (rev (tl (dropWhile (\<lambda>c. c \<noteq> CHR ''.'') (rev f))),
                 rev (takeWhile (\<lambda>c. c \<noteq> CHR ''.'') (rev f)))
      else None)"

text \<open>\<open>fname.split("_")[0]\<close>: the text before the first underscore, all of it when there is
  none.\<close>

definition split_underscore_0 :: "string \<Rightarrow> string" where
  "split_underscore_0 fname = takeWhile (\<lambda>c. c \<noteq> CHR ''_'') fname"

text \<open>\<open>xs.index(x)\<close>: the first position of \<open>x\<close>; \<open>None\<close> is the \<open>ValueError\<close>.\<close>

fun index_of :: "'a list \<Rightarrow> 'a \<Rightarrow> nat option" where
  "index_of [] x = None"
| "index_of (y # ys) x = (if y = x then Some 0 else map_option Suc (index_of ys x))"

text \<open>\<open>int(s)\<close> on a string without underscore: white space is stripped at both ends, one
  sign is allowed, then at least one decimal digit and nothing else. \<open>None\<close> is the
  \<open>ValueError\<close>. The value of a digit is its position in \<open>0123456789\<close>. (Decimal digits
  and spaces outside ASCII are not covered.)\<close>

definition py_isspace :: "char \<Rightarrow> bool" where
  "py_isspace c = (c \<in> set [CHR 0x09, CHR 0x0A, CHR 0x0B, CHR 0x0C, CHR 0x0D,
                            CHR 0x1C, CHR 0x1D, CHR 0x1E, CHR 0x1F, CHR 0x20])"

definition py_strip :: "string \<Rightarrow> string" where
  "py_strip s = rev (dropWhile py_isspace (rev (dropWhile py_isspace s)))"

definition digit_of :: "char \<Rightarrow> nat option" where
  "digit_of c = index_of ''0123456789'' c"

fun digits_from :: "nat \<Rightarrow> string \<Rightarrow> nat option" where
  "digits_from acc [] = Some acc"
| "digits_from acc (c # cs) =
     (case digit_of c of None \<Rightarrow> None | Some d \<Rightarrow> digits_from (10 * acc + d) cs)"

definition py_digits :: "string \<Rightarrow> nat option" where
  "py_digits s = (if s = [] then None else digits_from 0 s)"

definition py_int :: "string \<Rightarrow> int option" where
  "py_int s =
     (case py_strip s of
        [] \<Rightarrow> None
      | c # cs \<Rightarrow>
          if c = CHR ''-'' then map_option (\<lambda>n. - int n) (py_digits cs)
          else if c = CHR ''+'' then map_option int (py_digits cs)
          else map_option int (py_digits (c # cs)))"

text \<open>\<open>xs[start:stop]\<close>: a negative bound counts from the end, and both bounds are clamped
  to the list.\<close>

definition py_slice :: "'a list \<Rightarrow> int \<Rightarrow> int \<Rightarrow> 'a list" where
  "py_slice xs start stop =
     (let n = int (length xs);
          lo = (if start < 0 then max 0 (start + n) else min start n);
          hi = (if stop < 0 then max 0 (stop + n) else min stop n)
      in take (nat (hi - lo)) (drop (nat lo) xs))"

subsection \<open>Data\<close>

datatype direction = Up | Down

datatype error =
    ValueError_invalid_literal string
  | ValueError_not_in_list string
  | DirectionNotFoundException

text \<open>What a run prints and does, in order.\<close>

datatype event =
    Nothing_to_go direction
  | Count_greater int direction nat
  | Already_exists string
  | Does_not_exist string
  | Going string direction
  | Faking string
  | Importing string
  | Called string direction
  | Went string direction
  | Executed_insert string
  | Executed_delete string

text \<open>A row of the table \<open>migration\<close>.\<close>

record row =
  row_id :: nat
  migration :: string
  applied_on :: nat

text \<open>The world of a run: the table, the next value of its \<open>SERIAL\<close> column, the database
  clock read by \<open>NOW()\<close>, and the trace.\<close>

record world =
  table :: "row list"
  serial :: nat
  clock :: nat
  trace :: "event list"

text \<open>The fields of \<open>Terminator\<close> that come from the command line. (\<open>self.direction\<close> is
  the parameter \<open>d\<close> of the functions below.)\<close>

record terminator =
  fake :: bool
  count :: int

definition emit :: "event \<Rightarrow> world \<Rightarrow> world" where
  "emit e w = w\<lparr>trace := trace w @ [e]\<rparr>"

subsection \<open>The catalog: \<open>_retreive_filenames\<close>\<close>

definition IGNORED_FILES :: "string list" where
  "IGNORED_FILES = [''__init__'']"

text \<open>The body of the \<open>for\<close> loop: \<open>None\<close> is \<open>continue\<close>, \<open>Some b\<close> appends \<open>b\<close>.\<close>

definition candidate :: "string \<Rightarrow> string option" where
  "candidate f =
     (case rsplit_dot f of
        None \<Rightarrow> None
      | Some (b, ext) \<Rightarrow> if ext \<noteq> ''py'' \<or> b \<in> set IGNORED_FILES then None else Some b)"

text \<open>The sort key \<open>int(fname.split("_")[0])\<close>.\<close>

definition sort_key_of :: "string \<Rightarrow> int option" where
  "sort_key_of fname = py_int (split_underscore_0 fname)"

text \<open>\<open>sorted\<close> computes the key of every element, in list order, before it compares any;
  the first key that fails raises.\<close>

fun keyed :: "string list \<Rightarrow> error + (int \<times> string) list" where
  "keyed [] = Inr []"
| "keyed (m # ms) =
     (case sort_key_of m of
        None \<Rightarrow> Inl (ValueError_invalid_literal (split_underscore_0 m))
      | Some k \<Rightarrow> (case keyed ms of Inl e \<Rightarrow> Inl e | Inr ks \<Rightarrow> Inr ((k, m) # ks)))"

text \<open>\<open>sorted\<close> is stable and compares keys only; \<open>sort_key\<close> is the stable sort of the
  library.\<close>

definition retreive_filenames :: "string list \<Rightarrow> error + string list" where
  "retreive_filenames files =
     (case keyed (List.map_filter candidate files) of
        Inl e \<Rightarrow> Inl e
      | Inr ks \<Rightarrow> Inr (map snd (sort_key fst ks)))"

subsection \<open>The ledger: the SQL statements\<close>

text \<open>\<open>SELECT id FROM migration WHERE migration.migration = $1 LIMIT 1\<close>\<close>

definition fetch_id :: "string \<Rightarrow> world \<Rightarrow> row list" where
  "fetch_id m w = take 1 (filter (\<lambda>r. migration r = m) (table w))"

text \<open>\<open>SELECT * FROM migration ORDER BY migration DESC LIMIT 1\<close>\<close>

definition fetch_latest :: "world \<Rightarrow> row list" where
  "fetch_latest w = take 1 (rev (sort_key migration (table w)))"

text \<open>\<open>INSERT INTO migration (migration) VALUES ($1)\<close>\<close>

definition execute_insert :: "string \<Rightarrow> world \<Rightarrow> world" where
  "execute_insert m w =
     emit (Executed_insert m)
       (w\<lparr>table := table w @ [\<lparr>row_id = serial w, migration = m, applied_on = clock w\<rparr>],
          serial := Suc (serial w)\<rparr>)"

text \<open>\<open>DELETE FROM migration WHERE migration.migration = $1 LIMIT 1\<close>: one matching row
  goes, the first.\<close>

fun delete_one :: "string \<Rightarrow> row list \<Rightarrow> row list" where
  "delete_one m [] = []"
| "delete_one m (r # rs) = (if migration r = m then rs else r # delete_one m rs)"

definition execute_delete :: "string \<Rightarrow> world \<Rightarrow> world" where
  "execute_delete m w = emit (Executed_delete m) (w\<lparr>table := delete_one m (table w)\<rparr>)"

definition update_migration_table :: "direction \<Rightarrow> string \<Rightarrow> world \<Rightarrow> world" where
  "update_migration_table d m w = (if d = Up then execute_insert m w else execute_delete m w)"

definition get_latest_migration :: "world \<Rightarrow> row option" where
  "get_latest_migration w = (case fetch_latest w of [] \<Rightarrow> None | r # _ \<Rightarrow> Some r)"

subsection \<open>The engine\<close>

text \<open>\<open>_perform_single_migration\<close>. \<open>exposes m d\<close> is \<open>hasattr\<close> of the module of \<open>m\<close> for
  the operation \<open>d\<close>. The world is returned also when the function raises: what was written
  and printed before stays.\<close>

definition perform_single_migration ::
  "terminator \<Rightarrow> direction \<Rightarrow> (string \<Rightarrow> direction \<Rightarrow> bool) \<Rightarrow> string \<Rightarrow> world
     \<Rightarrow> (error + bool) \<times> world" where
  "perform_single_migration t d exposes m w =
     (let migration_exists = (length (fetch_id m w) = 1) in
      if migration_exists \<and> d = Up then (Inr False, emit (Already_exists m) w)
      else if \<not> migration_exists \<and> d = Down then (Inr False, emit (Does_not_exist m) w)
      else
        let w1 = emit (Going m d) w in
        if fake t
        then (Inr True, emit (Went m d) (emit (Faking m) (update_migration_table d m w1)))
        else
          let w2 = emit (Importing m) w1 in
          if exposes m d
          then (Inr True, emit (Went m d) (update_migration_table d m (emit (Called m d) w2)))
          else (Inl DirectionNotFoundException, w2))"

text \<open>The loop \<open>for migration in migrations_to_complete\<close>; its result is not used, an
  exception leaves it.\<close>

fun run_each ::
  "terminator \<Rightarrow> direction \<Rightarrow> (string \<Rightarrow> direction \<Rightarrow> bool) \<Rightarrow> string list \<Rightarrow> world
     \<Rightarrow> (error + unit) \<times> world" where
  "run_each t d exposes [] w = (Inr (), w)"
| "run_each t d exposes (m # ms) w =
     (case perform_single_migration t d exposes m w of
        (Inl e, w') \<Rightarrow> (Inl e, w')
      | (Inr _, w') \<Rightarrow> run_each t d exposes ms w')"

text \<open>The middle of \<open>_perform_migrations\<close>, from \<open>start = 0\<close> to the slice: either the run
  stops with "Nothing to go", or \<open>migrations_to_complete\<close> is chosen.\<close>

datatype selection = Nothing_to_do | Selected "string list"

definition migrations_to_complete ::
  "terminator \<Rightarrow> direction \<Rightarrow> string list \<Rightarrow> row option \<Rightarrow> error + selection" where
  "migrations_to_complete t d filenames latest_migration =
     (let slice_from = (\<lambda>start.
            let stop = (if count t = 0 then int (length filenames) else int start + count t)
            in Selected (py_slice filenames (int start) stop))
      in case latest_migration of
           Some r \<Rightarrow>
             (case index_of filenames (migration r) of
                None \<Rightarrow> Inl (ValueError_not_in_list (migration r))
              | Some migration_index \<Rightarrow>
                  if int migration_index = int (length filenames) - 1 \<and> d = Up
                  then Inr Nothing_to_do
                  else Inr (slice_from (if d = Up then migration_index + 1 else migration_index)))
         | None \<Rightarrow> if d = Down then Inr Nothing_to_do else Inr (slice_from 0))"

text \<open>\<open>_perform_migrations\<close>. \<open>files\<close> is the directory listing.\<close>

definition perform_migrations ::
  "terminator \<Rightarrow> direction \<Rightarrow> string list \<Rightarrow> (string \<Rightarrow> direction \<Rightarrow> bool) \<Rightarrow> world
     \<Rightarrow> (error + bool) \<times> world" where
  "perform_migrations t d files exposes w =
     (case retreive_filenames files of
        Inl e \<Rightarrow> (Inl e, w)
      | Inr sorted_names \<Rightarrow>
          let filenames = (if d = Down then rev sorted_names else sorted_names) in
          if length filenames \<le> 0 then (Inr True, w)
          else
            (case migrations_to_complete t d filenames (get_latest_migration w) of
               Inl e \<Rightarrow> (Inl e, w)
             | Inr Nothing_to_do \<Rightarrow> (Inr False, emit (Nothing_to_go d) w)
             | Inr (Selected ms) \<Rightarrow>
                 let w1 = (if count t > int (length ms)
                           then emit (Count_greater (count t) d (length ms)) w else w)
                 in (case run_each t d exposes ms w1 of
                       (Inl e, w') \<Rightarrow> (Inl e, w')
                     | (Inr _, w') \<Rightarrow> (Inr True, w'))))"

section \<open>Properties\<close>

subsection \<open>The catalog\<close>

lemma keyed_Inr:
  "keyed ms = Inr ks \<Longrightarrow> map snd ks = ms \<and> (\<forall>p\<in>set ks. sort_key_of (snd p) = Some (fst p))"
  by (induction ms arbitrary: ks) (auto split: option.splits sum.splits)


lemma retreive_filenames_Inr:
  assumes "retreive_filenames files = Inr seq"
  obtains ks where "keyed (List.map_filter candidate files) = Inr ks"
    and "seq = map snd (sort_key fst ks)"
  using assms by (auto simp: retreive_filenames_def split: sum.splits)

lemma filter_keyed:
  assumes "\<forall>p\<in>set L. sort_key_of (snd p) = Some (fst p)"
  shows "filter (\<lambda>m. sort_key_of m = Some k) (map snd L) = map snd (filter (\<lambda>p. fst p = k) L)"
proof -
  have "filter (\<lambda>p. sort_key_of (snd p) = Some k) L = filter (\<lambda>p. fst p = k) L"
    using assms by (intro filter_cong) auto
  then show ?thesis by (simp add: filter_map comp_def)
qed

text \<open>
  Claim C3, as the code has it. The sequence \<open>_retreive_filenames\<close> returns holds exactly
  the candidate base names, in ascending order of the integer before the first underscore.
  Names with the same integer are \<^emph>\<open>not\<close> put in string order: they stay in the order in
  which the directory listing gave them, because \<open>sorted\<close> is stable and its key is the
  integer alone.
\<close>

theorem catalog_sorted_stable:
  assumes "retreive_filenames files = Inr seq"
  shows "sorted_wrt (\<lambda>a b. \<exists>i j. sort_key_of a = Some i \<and> sort_key_of b = Some j \<and> i \<le> j) seq
       \<and> set seq = set (List.map_filter candidate files)
       \<and> (\<forall>k. filter (\<lambda>m. sort_key_of m = Some k) seq
              = filter (\<lambda>m. sort_key_of m = Some k) (List.map_filter candidate files))"
proof -
  from assms obtain ks where ks: "keyed (List.map_filter candidate files) = Inr ks"
    and seq: "seq = map snd (sort_key fst ks)"
    by (rule retreive_filenames_Inr)
  let ?L = "sort_key fst ks"
  have cands: "map snd ks = List.map_filter candidate files"
    and key: "\<forall>p\<in>set ks. sort_key_of (snd p) = Some (fst p)"
    using keyed_Inr [OF ks] by simp_all
  have keyL: "\<forall>p\<in>set ?L. sort_key_of (snd p) = Some (fst p)"
    using key by simp
  have "sorted (map fst ?L)" by (rule sorted_sort_key)
  then have "sorted_wrt (\<lambda>p q. fst p \<le> fst q) ?L"
    by (simp add: sorted_map)
  then have "sorted_wrt (\<lambda>p q. \<exists>i j. sort_key_of (snd p) = Some i \<and> sort_key_of (snd q) = Some j \<and> i \<le> j) ?L"
    by (rule sorted_wrt_mono_rel [rotated]) (use keyL in auto)
  then have A: "sorted_wrt (\<lambda>a b. \<exists>i j. sort_key_of a = Some i \<and> sort_key_of b = Some j \<and> i \<le> j) seq"
    by (simp add: seq sorted_wrt_map)
  have "set seq = snd ` set ks" by (simp add: seq)
  also have "\<dots> = set (map snd ks)" by simp
  finally have B: "set seq = set (List.map_filter candidate files)" by (simp only: cands)
  have C: "filter (\<lambda>m. sort_key_of m = Some k) seq
              = filter (\<lambda>m. sort_key_of m = Some k) (List.map_filter candidate files)" for k
  proof -
    have "filter (\<lambda>m. sort_key_of m = Some k) seq = map snd (filter (\<lambda>p. fst p = k) ?L)"
      unfolding seq by (rule filter_keyed [OF keyL])
    also have "\<dots> = map snd (filter (\<lambda>p. fst p = k) ks)"
      by (simp only: sort_key_stable)
    also have "\<dots> = filter (\<lambda>m. sort_key_of m = Some k) (map snd ks)"
      by (rule filter_keyed [OF key, symmetric])
    finally show ?thesis by (simp only: cands)
  qed
  from A B C show ?thesis by blast
qed

text \<open>The theorem at a listing of four files, two of them with the ordinal 1.\<close>

theorem catalog_sorted_stable_witness:
  "retreive_filenames [''10_c.py'', ''1_b.py'', ''notes.txt'', ''1_a.py''] = Inr [''1_b'', ''1_a'', ''10_c'']
   \<and> filter (\<lambda>m. sort_key_of m = Some 1) [''1_b'', ''1_a'', ''10_c''] = [''1_b'', ''1_a'']"
proof -
  have r: "retreive_filenames [''10_c.py'', ''1_b.py'', ''notes.txt'', ''1_a.py''] = Inr [''1_b'', ''1_a'', ''10_c'']"
    by code_simp
  have c: "List.map_filter candidate [''10_c.py'', ''1_b.py'', ''notes.txt'', ''1_a.py''] = [''10_c'', ''1_b'', ''1_a'']"
    by code_simp
  have k: "sort_key_of ''10_c'' = Some 10" "sort_key_of ''1_b'' = Some 1" "sort_key_of ''1_a'' = Some 1"
    by code_simp+
  from catalog_sorted_stable [OF r] have
    "filter (\<lambda>m. sort_key_of m = Some 1) [''1_b'', ''1_a'', ''10_c'']
       = filter (\<lambda>m. sort_key_of m = Some 1) (List.map_filter candidate [''10_c.py'', ''1_b.py'', ''notes.txt'', ''1_a.py''])"
    by blast
  then show ?thesis using r by (simp add: c k)
qed

text \<open>
  Claim C3 as the specification words it fails: when the listing gives \<open>1_b.py\<close> before
  \<open>1_a.py\<close>, both with the ordinal 1, the sequence keeps \<open>1_b\<close> before \<open>1_a\<close>, against
  string order.
\<close>

theorem tie_order_counterexample:
  "retreive_filenames [''1_b.py'', ''1_a.py''] = Inr [''1_b'', ''1_a'']
   \<and> sort_key_of ''1_b'' = Some 1 \<and> sort_key_of ''1_a'' = Some 1
   \<and> \<not> (''1_b'' \<le> ''1_a'')"
  by code_simp



text \<open>A candidate's base name is its file name without the final \<open>.py\<close>, so a listing
  without repeated file names gives a sequence without repeated names.\<close>

lemma candidate_Some: "candidate f = Some b \<Longrightarrow> f = b @ ''.py''"
proof -
  assume a: "candidate f = Some b"
  let ?P = "\<lambda>c. c \<noteq> CHR ''.''"
  from a have dot: "CHR ''.'' \<in> set f"
    by (auto simp: candidate_def rsplit_dot_def split: option.splits if_splits)
  with a have b: "b = rev (tl (dropWhile ?P (rev f)))" and e: "rev (takeWhile ?P (rev f)) = ''py''"
    by (auto simp: candidate_def rsplit_dot_def split: if_splits)
  from dot have "dropWhile ?P (rev f) \<noteq> []" by (simp add: dropWhile_eq_Nil_conv)
  moreover have "\<not> ?P (hd (dropWhile ?P (rev f)))"
    using calculation by (rule hd_dropWhile)
  ultimately have d: "dropWhile ?P (rev f) = CHR ''.'' # tl (dropWhile ?P (rev f))"
    by (cases "dropWhile ?P (rev f)") auto
  have "rev f = takeWhile ?P (rev f) @ dropWhile ?P (rev f)" by simp
  then have "f = rev (dropWhile ?P (rev f)) @ rev (takeWhile ?P (rev f))"
    by (metis rev_append rev_rev_ident)
  also have "\<dots> = rev (CHR ''.'' # tl (dropWhile ?P (rev f))) @ ''py''"
    using d e by simp
  finally show ?thesis using b by simp
qed

lemma distinct_candidates: "distinct files \<Longrightarrow> distinct (List.map_filter candidate files)"
proof (induction files)
  case Nil
  then show ?case by (simp add: map_filter_simps)
next
  case (Cons f fs)
  show ?case
  proof (cases "candidate f")
    case None
    with Cons show ?thesis by (simp add: map_filter_simps)
  next
    case (Some b)
    have "b \<notin> set (List.map_filter candidate fs)"
    proof
      assume "b \<in> set (List.map_filter candidate fs)"
      then obtain g where "g \<in> set fs" "candidate g = Some b"
        by (auto simp: map_filter_def)
      with Some have "g = f" by (auto dest!: candidate_Some)
      with \<open>g \<in> set fs\<close> Cons.prems show False by simp
    qed
    with Cons Some show ?thesis by (simp add: map_filter_simps)
  qed
qed

lemma distinct_retreive:
  assumes "distinct files" "retreive_filenames files = Inr seq"
  shows "distinct seq"
proof -
  from assms(2) obtain ks where ks: "keyed (List.map_filter candidate files) = Inr ks"
    and seq: "seq = map snd (sort_key fst ks)"
    by (rule retreive_filenames_Inr)
  from keyed_Inr [OF ks] have "map snd ks = List.map_filter candidate files" by simp
  with distinct_candidates [OF assms(1)] have d: "distinct (map snd ks)" by simp
  have "distinct (map snd (sort_key fst ks))"
  proof -
    have "inj_on snd (set ks)" "distinct ks" using d by (auto simp: distinct_map)
    then show ?thesis by (simp add: distinct_map)
  qed
  then show ?thesis by (simp add: seq)
qed

subsection \<open>The ledger\<close>

lemma get_latest_None: "get_latest_migration w = None \<longleftrightarrow> table w = []"
proof -
  have "rev (sort_key migration (table w)) = [] \<longleftrightarrow> table w = []"
    by (metis length_0_conv length_rev length_sort)
  then show ?thesis
    by (auto simp: get_latest_migration_def fetch_latest_def split: list.splits)
qed

lemma get_latest_Some:
  assumes "get_latest_migration w = Some r"
  shows "r \<in> set (table w) \<and> (\<forall>r'\<in>set (table w). migration r' \<le> migration r)"
proof -
  let ?s = "sort_key migration (table w)"
  from assms obtain xs where t: "take 1 (rev ?s) = r # xs"
    by (auto simp: get_latest_migration_def fetch_latest_def split: list.splits)
  then have ne: "?s \<noteq> []" by auto
  from t have "hd (take 1 (rev ?s)) = r" by simp
  then have r: "r = last ?s" using ne by (simp add: hd_rev)
  have "last ?s \<in> set ?s" using ne by (rule last_in_set)
  then have mem: "r \<in> set (table w)" unfolding r by simp
  have srt: "sorted (map migration ?s)" by (rule sorted_sort_key)
  have "migration r' \<le> migration r" if "r' \<in> set (table w)" for r'
  proof -
    from that have "r' \<in> set ?s" by simp
    then obtain i where i: "i < length ?s" "?s ! i = r'"
      unfolding in_set_conv_nth by blast
    have "map migration ?s ! i \<le> map migration ?s ! (length ?s - 1)"
      using srt i(1) by (intro sorted_nth_mono) auto
    then show ?thesis using i ne r by (simp add: last_conv_nth)
  qed
  with mem show ?thesis by blast
qed

text \<open>
  Claim C5. \<open>_get_latest_migration\<close> returns nothing exactly when the table has no row;
  otherwise it returns one row of the table, and no row of the table has a greater
  \<open>migration\<close> string. The order is the lexicographic order on strings by character code
  (\<open>ORDER BY migration DESC LIMIT 1\<close>), not the order of the ordinals.
\<close>

theorem latest_is_greatest:
  "(get_latest_migration w = None \<longleftrightarrow> table w = [])
   \<and> (\<forall>r. get_latest_migration w = Some r \<longrightarrow>
          r \<in> set (table w) \<and> (\<forall>r'\<in>set (table w). migration r' \<le> migration r))"
  using get_latest_None get_latest_Some by blast

text \<open>The theorem at a table holding \<open>9_x\<close> and \<open>10_y\<close>: the latest is \<open>9_x\<close>.\<close>

theorem latest_is_greatest_witness:
  "get_latest_migration
     \<lparr>table = [\<lparr>row_id = 1, migration = ''9_x'', applied_on = 0\<rparr>,
               \<lparr>row_id = 2, migration = ''10_y'', applied_on = 0\<rparr>],
      serial = 3, clock = 0, trace = []\<rparr>
   = Some \<lparr>row_id = 1, migration = ''9_x'', applied_on = 0\<rparr>
   \<and> ''10_y'' \<le> ''9_x''"
proof -
  let ?w = "\<lparr>table = [\<lparr>row_id = 1, migration = ''9_x'', applied_on = 0\<rparr>,
               \<lparr>row_id = 2, migration = ''10_y'', applied_on = 0\<rparr>],
      serial = 3, clock = 0, trace = []\<rparr>"
  have l: "get_latest_migration ?w = Some \<lparr>row_id = 1, migration = ''9_x'', applied_on = 0\<rparr>"
    by code_simp
  from latest_is_greatest [of ?w] l
  have "\<forall>r'\<in>set (table ?w). migration r' \<le> migration \<lparr>row_id = 1, migration = ''9_x'', applied_on = 0\<rparr>"
    by blast
  then have "''10_y'' \<le> ''9_x''" by simp
  with l show ?thesis by blast
qed

subsection \<open>The run\<close>

lemma index_of_None: "index_of xs x = None \<longleftrightarrow> x \<notin> set xs"
  by (induction xs) auto

lemma index_of_Some: "index_of xs x = Some i \<Longrightarrow> i < length xs \<and> xs ! i = x"
  by (induction xs arbitrary: i) (auto split: if_splits)

lemma index_of_nth: "distinct xs \<Longrightarrow> i < length xs \<Longrightarrow> index_of xs (xs ! i) = Some i"
proof (induction xs arbitrary: i)
  case Nil
  then show ?case by simp
next
  case (Cons y ys)
  show ?case
  proof (cases i)
    case 0
    then show ?thesis by simp
  next
    case (Suc j)
    with Cons.prems have "ys ! j \<in> set ys" "y \<notin> set ys" by auto
    then have "y \<noteq> ys ! j" by blast
    with Cons Suc show ?thesis by simp
  qed
qed

lemma index_of_last:
  assumes "distinct xs" "xs \<noteq> []"
  shows "index_of xs (last xs) = Some (length xs - 1)"
  using index_of_nth [OF assms(1), of "length xs - 1"] assms(2)
  by (simp add: last_conv_nth)

text \<open>\<open>_perform_migrations\<close> once the listing has given a sequence that is not empty.\<close>

lemma perform_migrations_listed:
  assumes "retreive_filenames files = Inr seq" "seq \<noteq> []"
  shows "perform_migrations t d files exposes w =
     (case migrations_to_complete t d (if d = Down then rev seq else seq) (get_latest_migration w) of
        Inl e \<Rightarrow> (Inl e, w)
      | Inr Nothing_to_do \<Rightarrow> (Inr False, emit (Nothing_to_go d) w)
      | Inr (Selected ms) \<Rightarrow>
          (case run_each t d exposes ms
                  (if count t > int (length ms)
                   then emit (Count_greater (count t) d (length ms)) w else w) of
             (Inl e, w') \<Rightarrow> (Inl e, w')
           | (Inr _, w') \<Rightarrow> (Inr True, w')))"
  using assms by (auto simp: perform_migrations_def Let_def split: sum.splits selection.splits)

text \<open>
  Claim C9, as the code has it. When the listing gives a sequence that is not empty and
  the latest row of the ledger names a migration that is not in it, \<open>filenames.index\<close>
  raises \<open>ValueError\<close> and the run ends there, in both directions, with nothing printed
  and nothing written.
\<close>

theorem missing_latest_raises:
  assumes "retreive_filenames files = Inr seq" and "seq \<noteq> []"
    and "get_latest_migration w = Some r" and "migration r \<notin> set seq"
  shows "perform_migrations t d files exposes w = (Inl (ValueError_not_in_list (migration r)), w)"
proof -
  have "index_of (if d = Down then rev seq else seq) (migration r) = None"
    using assms(4) by (simp add: index_of_None)
  then have "migrations_to_complete t d (if d = Down then rev seq else seq) (Some r)
      = Inl (ValueError_not_in_list (migration r))"
    by (simp add: migrations_to_complete_def)
  then show ?thesis
    by (simp add: perform_migrations_listed [OF assms(1,2)] assms(3))
qed

text \<open>The theorem with \<open>1_a\<close> in the ledger and only \<open>2_b.py\<close> in the directory.\<close>

theorem missing_latest_raises_witness:
  "perform_migrations \<lparr>fake = False, count = 0\<rparr> Up [''2_b.py''] (\<lambda>m d. True)
     \<lparr>table = [\<lparr>row_id = 1, migration = ''1_a'', applied_on = 0\<rparr>], serial = 2, clock = 0, trace = []\<rparr>
   = (Inl (ValueError_not_in_list ''1_a''),
      \<lparr>table = [\<lparr>row_id = 1, migration = ''1_a'', applied_on = 0\<rparr>], serial = 2, clock = 0, trace = []\<rparr>)"
proof -
  let ?w = "\<lparr>table = [\<lparr>row_id = 1, migration = ''1_a'', applied_on = 0\<rparr>], serial = 2, clock = 0, trace = []\<rparr>"
  have r: "retreive_filenames [''2_b.py''] = Inr [''2_b'']" by code_simp
  have n: "[''2_b''] \<noteq> []" by simp
  have l: "get_latest_migration ?w = Some \<lparr>row_id = 1, migration = ''1_a'', applied_on = 0\<rparr>"
    by code_simp
  have m: "migration \<lparr>row_id = 1, migration = ''1_a'', applied_on = 0\<rparr> \<notin> set [''2_b'']" by simp
  from missing_latest_raises [OF r n l m, of "\<lparr>fake = False, count = 0\<rparr>" Up "\<lambda>m d. True"]
  show ?thesis by simp
qed

text \<open>
  Claim C9 as stated fails when the sequence is empty: with a directory that holds only
  \<open>__init__.py\<close> and a ledger that holds \<open>1_a\<close>, the run returns \<open>True\<close> before it reads
  the ledger, and raises nothing.
\<close>

theorem missing_latest_empty_catalog_counterexample:
  "retreive_filenames [''__init__.py''] = Inr []
   \<and> get_latest_migration
       \<lparr>table = [\<lparr>row_id = 1, migration = ''1_a'', applied_on = 0\<rparr>], serial = 2, clock = 0, trace = []\<rparr>
     = Some \<lparr>row_id = 1, migration = ''1_a'', applied_on = 0\<rparr>
   \<and> perform_migrations \<lparr>fake = False, count = 0\<rparr> Up [''__init__.py''] (\<lambda>m d. True)
       \<lparr>table = [\<lparr>row_id = 1, migration = ''1_a'', applied_on = 0\<rparr>], serial = 2, clock = 0, trace = []\<rparr>
     = (Inr True,
        \<lparr>table = [\<lparr>row_id = 1, migration = ''1_a'', applied_on = 0\<rparr>], serial = 2, clock = 0, trace = []\<rparr>)"
  by code_simp




text \<open>
  Claim C4, as the code has it, for a listing that gives a sequence that is not empty.
  A \<open>down\<close> run on an empty ledger prints "Nothing to go down", returns \<open>False\<close> and
  changes nothing else. An \<open>up\<close> run whose latest row names the last migration of the
  sequence prints "Nothing to go up", returns \<open>False\<close> and changes nothing else (file
  names in a directory are distinct).
\<close>

theorem boundary_noop:
  assumes "retreive_filenames files = Inr seq" and "seq \<noteq> []"
  shows "(table w = [] \<longrightarrow>
            perform_migrations t Down files exposes w
              = (Inr False, w\<lparr>trace := trace w @ [Nothing_to_go Down]\<rparr>))
       \<and> (\<forall>r. distinct files \<and> get_latest_migration w = Some r \<and> migration r = last seq \<longrightarrow>
            perform_migrations t Up files exposes w
              = (Inr False, w\<lparr>trace := trace w @ [Nothing_to_go Up]\<rparr>))"
proof (intro conjI allI impI)
  assume "table w = []"
  then have "get_latest_migration w = None" by (simp add: get_latest_None)
  then show "perform_migrations t Down files exposes w
              = (Inr False, w\<lparr>trace := trace w @ [Nothing_to_go Down]\<rparr>)"
    by (simp add: perform_migrations_listed [OF assms] migrations_to_complete_def emit_def)
next
  fix r
  assume a: "distinct files \<and> get_latest_migration w = Some r \<and> migration r = last seq"
  then have "distinct seq" using assms(1) by (auto intro: distinct_retreive)
  then have "index_of seq (migration r) = Some (length seq - 1)"
    using a assms(2) by (simp add: index_of_last)
  moreover have "int (length seq - 1) = int (length seq) - 1"
    using assms(2) by (cases seq) auto
  ultimately have "migrations_to_complete t Up seq (Some r) = Inr Nothing_to_do"
    by (simp add: migrations_to_complete_def)
  then show "perform_migrations t Up files exposes w
              = (Inr False, w\<lparr>trace := trace w @ [Nothing_to_go Up]\<rparr>)"
    using a by (simp add: perform_migrations_listed [OF assms] emit_def)
qed

text \<open>The theorem at two migrations: \<open>down\<close> on an empty ledger, \<open>up\<close> on a full one.\<close>

theorem boundary_noop_witness:
  "perform_migrations \<lparr>fake = False, count = 0\<rparr> Down [''1_a.py'', ''2_b.py''] (\<lambda>m d. True)
      \<lparr>table = [], serial = 1, clock = 0, trace = []\<rparr>
    = (Inr False, \<lparr>table = [], serial = 1, clock = 0, trace = [Nothing_to_go Down]\<rparr>)
   \<and> perform_migrations \<lparr>fake = False, count = 0\<rparr> Up [''1_a.py'', ''2_b.py''] (\<lambda>m d. True)
      \<lparr>table = [\<lparr>row_id = 1, migration = ''1_a'', applied_on = 0\<rparr>,
                \<lparr>row_id = 2, migration = ''2_b'', applied_on = 0\<rparr>],
       serial = 3, clock = 0, trace = []\<rparr>
    = (Inr False,
       \<lparr>table = [\<lparr>row_id = 1, migration = ''1_a'', applied_on = 0\<rparr>,
                 \<lparr>row_id = 2, migration = ''2_b'', applied_on = 0\<rparr>],
        serial = 3, clock = 0, trace = [Nothing_to_go Up]\<rparr>)"
proof -
  let ?t = "\<lparr>fake = False, count = 0\<rparr>"
  let ?w0 = "\<lparr>table = [], serial = 1, clock = 0, trace = []\<rparr>"
  let ?r = "\<lparr>row_id = 2, migration = ''2_b'', applied_on = 0\<rparr>"
  let ?w2 = "\<lparr>table = [\<lparr>row_id = 1, migration = ''1_a'', applied_on = 0\<rparr>, ?r],
       serial = 3, clock = 0, trace = []\<rparr>"
  have r: "retreive_filenames [''1_a.py'', ''2_b.py''] = Inr [''1_a'', ''2_b'']" by code_simp
  have n: "[''1_a'', ''2_b''] \<noteq> []" by simp
  have e: "table ?w0 = []" by simp
  have d: "distinct [''1_a.py'', ''2_b.py'']" by simp
  have l: "get_latest_migration ?w2 = Some ?r" by code_simp
  have m: "migration ?r = last [''1_a'', ''2_b'']" by simp
  from boundary_noop [OF r n, of ?w0 ?t "\<lambda>m d. True"] e
  have A: "perform_migrations ?t Down [''1_a.py'', ''2_b.py''] (\<lambda>m d. True) ?w0
      = (Inr False, ?w0\<lparr>trace := trace ?w0 @ [Nothing_to_go Down]\<rparr>)"
    by blast
  from boundary_noop [OF r n, of ?w2 ?t "\<lambda>m d. True"] d l m
  have B: "perform_migrations ?t Up [''1_a.py'', ''2_b.py''] (\<lambda>m d. True) ?w2
      = (Inr False, ?w2\<lparr>trace := trace ?w2 @ [Nothing_to_go Up]\<rparr>)"
    by blast
  from A B show ?thesis by simp
qed

text \<open>
  Claim C4 as stated fails when the directory has no migration: a \<open>down\<close> run on an empty
  ledger then returns \<open>True\<close>, not \<open>False\<close>, and prints nothing.
\<close>

theorem down_empty_catalog_counterexample:
  "retreive_filenames [''__init__.py''] = Inr []
   \<and> table \<lparr>table = [], serial = 1, clock = 0, trace = []\<rparr> = []
   \<and> perform_migrations \<lparr>fake = False, count = 0\<rparr> Down [''__init__.py''] (\<lambda>m d. True)
        \<lparr>table = [], serial = 1, clock = 0, trace = []\<rparr>
      = (Inr True, \<lparr>table = [], serial = 1, clock = 0, trace = []\<rparr>)"
  by code_simp

end
